theory Spec2Isabelle
  imports Main
begin

section \<open>Go values the seeder package works with\<close>

text \<open>
  A Go \<^verbatim>\<open>error\<close> as this package builds it: \<^verbatim>\<open>fmt.Errorf\<close> without a
  \<^verbatim>\<open>%w\<close> verb gives a plain message, \<^verbatim>\<open>fmt.Errorf\<close> with one \<^verbatim>\<open>%w\<close>
  gives a message together with the wrapped error, which \<^verbatim>\<open>errors.Unwrap\<close> returns.
  A caller's seeder may return any error; \<open>ErrorString\<close> also stands for
  \<^verbatim>\<open>errors.New\<close>.
\<close>

datatype error = ErrorString string | WrapError string error

fun Error :: "error \<Rightarrow> string" where
  "Error (ErrorString msg) = msg"
| "Error (WrapError msg err) = msg"

fun Unwrap :: "error \<Rightarrow> error option" where
  "Unwrap (ErrorString msg) = None"
| "Unwrap (WrapError msg err) = Some err"

text \<open>\<^verbatim>\<open>fmt.Errorf(msg)\<close> where the formatted text holds no \<^verbatim>\<open>%w\<close>.\<close>

definition Errorf :: "string \<Rightarrow> error" where
  "Errorf msg = ErrorString msg"

text \<open>
  \<^verbatim>\<open>fmt.Errorf(prefix + "%w", err)\<close>: the message is the prefix followed by the
  message of \<open>err\<close>, and \<open>err\<close> is kept as the wrapped error.
\<close>

definition Errorf_w :: "string \<Rightarrow> error \<Rightarrow> error" where
  "Errorf_w prefix err = WrapError (prefix @ Error err) err"

text \<open>The single quote character of the package's messages.\<close>

definition sq :: string where
  "sq = [CHR 0x27]"

text \<open>
  How a Go call ends: it returns a value, it panics, or the process exits with a
  status (\<^verbatim>\<open>os.Exit\<close>).
\<close>

datatype 'a outcome = Return 'a | Panic | Exit int

text \<open>
  The state the code runs in: the lines handed to the process-wide logger (the text of
  each \<^verbatim>\<open>log.Printf\<close> and \<^verbatim>\<open>log.Println\<close> call of this package, without the
  logger's own prefix), and everything else a seeder may touch (\<open>world\<close>: a database,
  files, ...).
\<close>

record 'w process =
  logs :: "string list"
  world :: 'w

definition Println :: "string \<Rightarrow> 'w process \<Rightarrow> 'w process" where
  "Println line s = s\<lparr>logs := logs s @ [line]\<rparr>"

text \<open>
  A value of Go type \<^verbatim>\<open>func() error\<close>: \<open>None\<close> is the nil function, \<open>Some g\<close> a
  function that changes the world and returns nil (\<open>Return None\<close>) or an error
  (\<open>Return (Some err)\<close>), or panics, or exits. The logger is write-only for a seeder:
  what it does depends on the world only. A seeder has no access to the manager it is
  registered in, and a seeder that never returns is not modelled.
\<close>

type_synonym 'w func = "('w \<Rightarrow> error option outcome \<times> 'w) option"

text \<open>Calling a function value; calling nil panics.\<close>

definition call :: "'w func \<Rightarrow> 'w process \<Rightarrow> error option outcome \<times> 'w process" where
  "call function s =
     (case function of
        None \<Rightarrow> (Panic, s)
      | Some g \<Rightarrow> (case g (world s) of (r, w) \<Rightarrow> (r, s\<lparr>world := w\<rparr>)))"

section \<open>SeederManager\<close>

record 'w SeederItem =
  Name :: string
  Function :: "'w func"

text \<open>
  The \<^verbatim>\<open>db\<close> field of the struct is set by the constructor and read by no method; it
  is left out.
\<close>

record 'w SeederManager =
  seeders :: "'w SeederItem list"
  seederMap :: "string \<rightharpoonup> 'w func"

definition NewSeederManager :: "'w SeederManager" where
  "NewSeederManager = \<lparr>seeders = [], seederMap = Map.empty\<rparr>"

definition RegisterSeeder ::
  "'w SeederManager \<Rightarrow> string \<Rightarrow> 'w func \<Rightarrow> 'w process
     \<Rightarrow> error option \<times> 'w SeederManager \<times> 'w process" where
  "RegisterSeeder sm name function s =
     (if name = [] then (Some (Errorf ''seeder name cannot be empty''), sm, s)
      else if seederMap sm name \<noteq> None then
        (Some (Errorf (''seeder with name '' @ sq @ name @ sq @ '' already exists'')), sm, s)
      else
        (let seederItem = \<lparr>Name = name, Function = function\<rparr> in
         (None,
          sm\<lparr>seeders := seeders sm @ [seederItem],
             seederMap := (seederMap sm)(name \<mapsto> function)\<rparr>,
          Println (''Registered seeder: '' @ name) s)))"

text \<open>
  The spec's names for the four errors of the manager, each the value the code builds.
\<close>

definition InvalidName :: error where
  "InvalidName = ErrorString ''seeder name cannot be empty''"

definition DuplicateName :: "string \<Rightarrow> error" where
  "DuplicateName name = ErrorString (''seeder with name '' @ sq @ name @ sq @ '' already exists'')"

definition NotFound :: "string \<Rightarrow> error" where
  "NotFound name = ErrorString (''seeder with name '' @ sq @ name @ sq @ '' not found'')"

definition ExecutionFailed :: "string \<Rightarrow> error \<Rightarrow> error" where
  "ExecutionFailed name cause =
     WrapError (''seeder '' @ sq @ name @ sq @ '' failed: '' @ Error cause) cause"

text \<open>
  \<^verbatim>\<open>RegisterSeeders\<close>: the loop over the variadic argument, one equation for the end
  of the slice and one for an iteration.
\<close>

fun RegisterSeeders ::
  "'w SeederManager \<Rightarrow> 'w SeederItem list \<Rightarrow> 'w process
     \<Rightarrow> error option \<times> 'w SeederManager \<times> 'w process" where
  "RegisterSeeders sm [] s = (None, sm, s)"
| "RegisterSeeders sm (seeder # rest) s =
     (case RegisterSeeder sm (Name seeder) (Function seeder) s of
        (Some err, sm', s') \<Rightarrow>
          (Some (Errorf_w (''failed to register seeder '' @ sq @ Name seeder @ sq @ '': '') err),
           sm', s')
      | (None, sm', s') \<Rightarrow> RegisterSeeders sm' rest s')"

definition GetRegisteredSeeders :: "'w SeederManager \<Rightarrow> string list" where
  "GetRegisteredSeeders sm = map Name (seeders sm)"

definition RunSeederByName ::
  "'w SeederManager \<Rightarrow> string \<Rightarrow> 'w process \<Rightarrow> error option outcome \<times> 'w process" where
  "RunSeederByName sm name s =
     (case seederMap sm name of
        Some function \<Rightarrow>
          (case call function (Println (''Running seeder: '' @ name) s) of
             (Return (Some err), s') \<Rightarrow>
               (Return (Some (Errorf_w (''seeder '' @ sq @ name @ sq @ '' failed: '') err)), s')
           | (Return None, s') \<Rightarrow>
               (Return None, Println (''Seeder '' @ sq @ name @ sq @ '' completed successfully'') s')
           | (Panic, s') \<Rightarrow> (Panic, s')
           | (Exit code, s') \<Rightarrow> (Exit code, s'))
      | None \<Rightarrow> (Return (Some (Errorf (''seeder with name '' @ sq @ name @ sq @ '' not found''))), s))"

fun RunSeedersInOrder ::
  "'w SeederManager \<Rightarrow> string list \<Rightarrow> 'w process \<Rightarrow> error option outcome \<times> 'w process" where
  "RunSeedersInOrder sm [] s = (Return None, s)"
| "RunSeedersInOrder sm (name # names) s =
     (case RunSeederByName sm name s of
        (Return None, s') \<Rightarrow> RunSeedersInOrder sm names s'
      | (r, s') \<Rightarrow> (r, s'))"

text \<open>The loop of \<^verbatim>\<open>RunAllSeeders\<close> over the slice.\<close>

fun RunAllSeeders_loop ::
  "'w SeederItem list \<Rightarrow> 'w process \<Rightarrow> error option outcome \<times> 'w process" where
  "RunAllSeeders_loop [] s = (Return None, s)"
| "RunAllSeeders_loop (seeder # rest) s =
     (case call (Function seeder) (Println (''Running seeder: '' @ Name seeder) s) of
        (Return (Some err), s') \<Rightarrow>
          (Return (Some (Errorf_w (''seeder '' @ sq @ Name seeder @ sq @ '' failed: '') err)), s')
      | (Return None, s') \<Rightarrow>
          RunAllSeeders_loop rest
            (Println (''Seeder '' @ sq @ Name seeder @ sq @ '' completed successfully'') s')
      | (Panic, s') \<Rightarrow> (Panic, s')
      | (Exit code, s') \<Rightarrow> (Exit code, s'))"

definition RunAllSeeders ::
  "'w SeederManager \<Rightarrow> 'w process \<Rightarrow> error option outcome \<times> 'w process" where
  "RunAllSeeders sm s =
     (case RunAllSeeders_loop (seeders sm) (Println ''Running all seeders...'' s) of
        (Return None, s') \<Rightarrow> (Return None, Println ''All seeders completed successfully!'' s')
      | (r, s') \<Rightarrow> (r, s'))"

definition IsSeederRegistered :: "'w SeederManager \<Rightarrow> string \<Rightarrow> bool" where
  "IsSeederRegistered sm name = (seederMap sm name \<noteq> None)"

text \<open>
  The managers a program can hold: the constructor's, and what \<^verbatim>\<open>RegisterSeeder\<close>
  and \<^verbatim>\<open>RegisterSeeders\<close> leave behind, whatever they return. The other methods
  assign to no field.
\<close>

inductive reachable :: "'w SeederManager \<Rightarrow> bool" where
  new: "reachable NewSeederManager"
| register: "reachable sm \<Longrightarrow> RegisterSeeder sm name function s = (r, sm', s') \<Longrightarrow> reachable sm'"
| register_many: "reachable sm \<Longrightarrow> RegisterSeeders sm items s = (r, sm', s') \<Longrightarrow> reachable sm'"

section \<open>CLI\<close>

text \<open>\<^verbatim>\<open>strings.Repeat\<close> for a count that is not negative.\<close>

definition Repeat :: "string \<Rightarrow> nat \<Rightarrow> string" where
  "Repeat str count = concat (replicate count str)"

text \<open>The verb \<^verbatim>\<open>%d\<close> on an integer that is not negative: its decimal digits.\<close>

function itoa :: "nat \<Rightarrow> string" where
  "itoa n = (if n < 10 then [''0123456789'' ! n] else itoa (n div 10) @ [''0123456789'' ! (n mod 10)])"
  by pat_completeness auto
termination
  by (relation "measure id") auto

text \<open>The verb \<^verbatim>\<open>%v\<close> on a slice of strings: the elements between brackets, a space apart.\<close>

fun Sprint_elems :: "string list \<Rightarrow> string" where
  "Sprint_elems [] = []"
| "Sprint_elems [x] = x"
| "Sprint_elems (x # y # ys) = x @ '' '' @ Sprint_elems (y # ys)"

definition Sprint_slice :: "string list \<Rightarrow> string" where
  "Sprint_slice xs = ''['' @ Sprint_elems xs @ '']''"

text \<open>
  \<open>manager\<close> is the manager the pointer field refers to, as it is when a method of the
  CLI is called.
\<close>

record 'w CLI =
  manager :: "'w SeederManager"
  appName :: string

definition NewCLI :: "'w SeederManager \<Rightarrow> 'w CLI" where
  "NewCLI m = \<lparr>manager = m, appName = ''seeder''\<rparr>"

definition NewCLIWithAppName :: "'w SeederManager \<Rightarrow> string \<Rightarrow> 'w CLI" where
  "NewCLIWithAppName m name = \<lparr>manager = m, appName = name\<rparr>"

text \<open>
  The numbered listing of \<^verbatim>\<open>Usage\<close>: the loop \<^verbatim>\<open>for i, name := range seeders\<close>,
  with the index \<open>i\<close> of the current element.
\<close>

fun Usage_loop :: "string \<Rightarrow> nat \<Rightarrow> string list \<Rightarrow> 'w process \<Rightarrow> 'w process" where
  "Usage_loop app i [] s = s"
| "Usage_loop app i (name # rest) s =
     Usage_loop app (i + 1) rest
       (Println []
         (Println (''     Command: '' @ app @ '' -type='' @ name)
           (Println (''  '' @ itoa (i + 1) @ ''. '' @ name) s)))"

text \<open>
  \<^verbatim>\<open>Usage\<close>. \<^verbatim>\<open>strings.ToUpper\<close> is the standard library's and is taken as the
  parameter \<open>ToUpper\<close>. \<open>Usage_head\<close> lists the nine lines logged before the slice of
  names is fetched, in the order of the source.
\<close>

definition Usage_head :: "(string \<Rightarrow> string) \<Rightarrow> string \<Rightarrow> string list" where
  "Usage_head ToUpper app =
     [''='' @ Repeat ''='' 60,
      ''DATABASE SEEDER - '' @ ToUpper app,
      ''='' @ Repeat ''='' 60,
      [],
      ''Usage:'',
      ''  '' @ app @ '' -type=all     # Run all seeders'',
      ''  '' @ app @ '' -type=<name>  # Run specific seeder'',
      ''  '' @ app @ ''               # Show this help'',
      []]"

definition Usage :: "(string \<Rightarrow> string) \<Rightarrow> 'w CLI \<Rightarrow> 'w process \<Rightarrow> 'w process" where
  "Usage ToUpper cli s =
     (let s1 = fold Println (Usage_head ToUpper (appName cli)) s;
          seeders = GetRegisteredSeeders (manager cli)
      in if length seeders = 0 then Println ''No seeders registered yet.'' s1
         else
           (let s2 = Println (''-'' @ Repeat ''-'' 40)
                       (Println ''Available seeders (in execution order):'' s1);
                s3 = Usage_loop (appName cli) 0 seeders s2
            in Println (''='' @ Repeat ''='' 60)
                 (Println (''  '' @ appName cli @ '' -type=all     # Run all seeders'')
                   (Println ''Quick commands:'' s3))))"

text \<open>
  \<^verbatim>\<open>Run\<close>. \<open>seedType\<close> is the value of the \<^verbatim>\<open>-type\<close> flag once the command line is
  parsed: the empty string when the flag is absent. The unknown-name branch ends in
  \<^verbatim>\<open>os.Exit(1)\<close>.
\<close>

definition Run ::
  "(string \<Rightarrow> string) \<Rightarrow> 'w CLI \<Rightarrow> string \<Rightarrow> 'w process \<Rightarrow> error option outcome \<times> 'w process" where
  "Run ToUpper cli seedType s =
     (if seedType = [] then (Return None, Usage ToUpper cli s)
      else
        (let s1 = Println (''Starting seeder with type: '' @ seedType) s in
         if seedType = ''all'' then RunAllSeeders (manager cli) s1
         else if IsSeederRegistered (manager cli) seedType then
           RunSeederByName (manager cli) seedType s1
         else
           (Exit 1,
            Usage ToUpper cli
              (Println (''Available seeders: '' @ Sprint_slice (GetRegisteredSeeders (manager cli)))
                (Println (''Unknown seeder type: '' @ seedType) s1)))))"

section \<open>The invariant of the manager\<close>

text \<open>
  What the slice and the map of a manager have to do with each other: the names in the
  slice are pairwise different and none is empty, and the map holds exactly the slice's
  items, each name with its function.
\<close>

definition consistent :: "'w SeederManager \<Rightarrow> bool" where
  "consistent sm \<longleftrightarrow>
     distinct (map Name (seeders sm)) \<and>
     [] \<notin> set (map Name (seeders sm)) \<and>
     seederMap sm = map_of (map (\<lambda>item. (Name item, Function item)) (seeders sm))"

section \<open>Example seeders\<close>

text \<open>
  Seeders for the examples: the world is the list of the seeders that have run, each
  seeder appends its tag. \<open>seed_ok\<close> returns nil, \<open>seed_fail\<close> returns an error
  with the given message.
\<close>

definition seed_ok :: "string \<Rightarrow> string list func" where
  "seed_ok tag = Some (\<lambda>w. (Return None, w @ [tag]))"

definition seed_fail :: "string \<Rightarrow> string \<Rightarrow> string list func" where
  "seed_fail tag msg = Some (\<lambda>w. (Return (Some (ErrorString msg)), w @ [tag]))"

definition start :: "string list process" where
  "start = \<lparr>logs = [], world = []\<rparr>"

text \<open>The managers of the examples, each built by \<^verbatim>\<open>RegisterSeeders\<close> on a new manager.\<close>

definition two_seeders :: "string list SeederManager" where
  "two_seeders =
     fst (snd (RegisterSeeders NewSeederManager
       [\<lparr>Name = ''users'', Function = seed_ok ''users''\<rparr>,
        \<lparr>Name = ''departments'', Function = seed_ok ''departments''\<rparr>] start))"

definition three_seeders :: "string list SeederManager" where
  "three_seeders =
     fst (snd (RegisterSeeders NewSeederManager
       [\<lparr>Name = ''A'', Function = seed_ok ''A''\<rparr>,
        \<lparr>Name = ''B'', Function = seed_fail ''B'' ''boom''\<rparr>,
        \<lparr>Name = ''C'', Function = seed_ok ''C''\<rparr>] start))"

definition with_all :: "string list SeederManager" where
  "with_all =
     fst (snd (RegisterSeeders NewSeederManager
       [\<lparr>Name = ''all'', Function = seed_ok ''all''\<rparr>,
        \<lparr>Name = ''users'', Function = seed_ok ''users''\<rparr>] start))"

definition only_all :: "string list SeederManager" where
  "only_all =
     fst (snd (RegisterSeeders NewSeederManager
       [\<lparr>Name = ''all'', Function = seed_ok ''all''\<rparr>] start))"

text \<open>\<^verbatim>\<open>strings.ToUpper\<close> on ASCII text, for the examples.\<close>

definition upper_char :: "char \<Rightarrow> char" where
  "upper_char c =
     (let n = of_char c :: nat in if 97 \<le> n \<and> n \<le> 122 then char_of (n - 32) else c)"

definition ascii_upper :: "string \<Rightarrow> string" where
  "ascii_upper str = map upper_char str"

section \<open>Registration keeps the manager consistent\<close>

lemma consistent_new: "consistent NewSeederManager"
  by (simp add: consistent_def NewSeederManager_def)

lemma consistent_dom: "consistent sm \<Longrightarrow> dom (seederMap sm) = set (map Name (seeders sm))"
  by (simp add: consistent_def dom_map_of_conv_image_fst image_image)

lemma RegisterSeeder_failed:
  "RegisterSeeder sm name function s = (Some err, sm', s') \<Longrightarrow> sm' = sm \<and> s' = s"
  by (auto simp: RegisterSeeder_def split: if_splits)

lemma RegisterSeeder_ok:
  "RegisterSeeder sm name function s = (None, sm', s') \<Longrightarrow>
     name \<noteq> [] \<and> name \<notin> dom (seederMap sm) \<and>
     sm' = sm\<lparr>seeders := seeders sm @ [\<lparr>Name = name, Function = function\<rparr>],
               seederMap := (seederMap sm)(name \<mapsto> function)\<rparr> \<and>
     s' = Println (''Registered seeder: '' @ name) s"
  by (auto simp: RegisterSeeder_def split: if_splits)

lemma map_of_snoc_fresh:
  "k \<notin> fst ` set xs \<Longrightarrow> map_of (xs @ [(k, v)]) = (map_of xs)(k \<mapsto> v)"
  by (induction xs) (auto simp: fun_upd_twist)

lemma consistent_register:
  assumes "consistent sm" and "RegisterSeeder sm name function s = (r, sm', s')"
  shows "consistent sm'"
proof (cases r)
  case (Some err)
  with assms(2) have "sm' = sm" by (simp add: RegisterSeeder_failed)
  then show ?thesis using assms(1) by simp
next
  case None
  with assms(2) have ne: "name \<noteq> []" and fresh: "name \<notin> dom (seederMap sm)"
    and sm': "sm' = sm\<lparr>seeders := seeders sm @ [\<lparr>Name = name, Function = function\<rparr>],
                seederMap := (seederMap sm)(name \<mapsto> function)\<rparr>"
    using RegisterSeeder_ok [of sm name "function" s sm' s'] by simp_all
  from fresh assms(1) have notin: "name \<notin> set (map Name (seeders sm))"
    by (simp add: consistent_dom)
  then have "name \<notin> fst ` set (map (\<lambda>item. (Name item, Function item)) (seeders sm))"
    by (simp add: image_image)
  from map_of_snoc_fresh [OF this]
  have "map_of (map (\<lambda>item. (Name item, Function item)) (seeders sm) @ [(name, function)])
            = (seederMap sm)(name \<mapsto> function)"
    using assms(1) unfolding consistent_def by metis
  then show ?thesis using assms(1) ne notin sm'
    by (simp add: consistent_def)
qed

lemma consistent_register_many:
  "consistent sm \<Longrightarrow> RegisterSeeders sm items s = (r, sm', s') \<Longrightarrow> consistent sm'"
proof (induction items arbitrary: sm s)
  case Nil
  then show ?case by simp
next
  case (Cons seeder rest)
  obtain r1 sm1 s1 where step: "RegisterSeeder sm (Name seeder) (Function seeder) s = (r1, sm1, s1)"
    by (metis prod_cases3)
  have c1: "consistent sm1" using consistent_register [OF Cons.prems(1) step] .
  show ?case
  proof (cases r1)
    case None
    with Cons.prems(2) step have "RegisterSeeders sm1 rest s1 = (r, sm', s')" by simp
    from Cons.IH [OF c1 this] show ?thesis .
  next
    case (Some err)
    with Cons.prems(2) step have "sm' = sm1" by simp
    with c1 show ?thesis by simp
  qed
qed

lemma reachable_consistent: "reachable sm \<Longrightarrow> consistent sm"
  by (induction rule: reachable.induct)
     (auto intro: consistent_new consistent_register consistent_register_many)

lemma consistent_lookup:
  "consistent sm \<Longrightarrow> item \<in> set (seeders sm) \<Longrightarrow> seederMap sm (Name item) = Some (Function item)"
proof -
  assume c: "consistent sm" and m: "item \<in> set (seeders sm)"
  let ?kvs = "map (\<lambda>item. (Name item, Function item)) (seeders sm)"
  from c have d: "distinct (map fst ?kvs)" by (simp add: consistent_def comp_def)
  from m have "(Name item, Function item) \<in> set ?kvs" by auto
  with d have "map_of ?kvs (Name item) = Some (Function item)" by (rule_tac map_of_is_SomeI)
  with c show ?thesis by (simp add: consistent_def)
qed

lemma RegisterSeeders_extends:
  "RegisterSeeders sm items s = (r, sm', s') \<Longrightarrow>
     \<exists>k\<le>length items. seeders sm' = seeders sm @ take k items \<and> (r = None \<longleftrightarrow> k = length items)"
proof (induction items arbitrary: sm s)
  case Nil
  then show ?case by simp
next
  case (Cons seeder rest)
  obtain r1 sm1 s1 where step: "RegisterSeeder sm (Name seeder) (Function seeder) s = (r1, sm1, s1)"
    by (metis prod_cases3)
  show ?case
  proof (cases r1)
    case None
    with Cons.prems step have rest: "RegisterSeeders sm1 rest s1 = (r, sm', s')" by simp
    from Cons.IH [OF rest] obtain k where k: "k \<le> length rest"
      "seeders sm' = seeders sm1 @ take k rest" "r = None \<longleftrightarrow> k = length rest" by blast
    from RegisterSeeder_ok [of sm "Name seeder" "Function seeder" s sm1 s1] step None
    have "seeders sm1 = seeders sm @ [seeder]" by simp
    with k have "Suc k \<le> length (seeder # rest) \<and>
        seeders sm' = seeders sm @ take (Suc k) (seeder # rest) \<and>
        (r = None \<longleftrightarrow> Suc k = length (seeder # rest))" by simp
    then show ?thesis by blast
  next
    case (Some err)
    with Cons.prems step have "sm' = sm1" "r \<noteq> None" by auto
    moreover from RegisterSeeder_failed [of sm "Name seeder" "Function seeder" s err sm1 s1] step Some
    have "sm1 = sm" by simp
    ultimately have "0 \<le> length (seeder # rest) \<and>
        seeders sm' = seeders sm @ take 0 (seeder # rest) \<and>
        (r = None \<longleftrightarrow> 0 = length (seeder # rest))" by simp
    then show ?thesis by blast
  qed
qed

lemma RegisterSeeders_append:
  "RegisterSeeders sm pre s = (None, sm1, s1) \<Longrightarrow>
     RegisterSeeders sm (pre @ rest) s = RegisterSeeders sm1 rest s1"
proof (induction pre arbitrary: sm s)
  case Nil
  then show ?case by simp
next
  case (Cons item pre)
  obtain r sm' s' where step: "RegisterSeeder sm (Name item) (Function item) s = (r, sm', s')"
    by (metis prod_cases3)
  show ?case
  proof (cases r)
    case None
    with step Cons.prems have "RegisterSeeders sm' pre s' = (None, sm1, s1)" by simp
    from Cons.IH [OF this] None step show ?thesis by simp
  next
    case (Some err)
    with step Cons.prems show ?thesis by simp
  qed
qed

lemma RegisterSeeders_ok:
  "RegisterSeeders sm pre s = (None, sm1, s1) \<Longrightarrow>
     seeders sm1 = seeders sm @ pre \<and> dom (seederMap sm1) = dom (seederMap sm) \<union> Name ` set pre"
proof (induction pre arbitrary: sm s)
  case Nil
  then show ?case by simp
next
  case (Cons item pre)
  obtain r sm' s' where step: "RegisterSeeder sm (Name item) (Function item) s = (r, sm', s')"
    by (metis prod_cases3)
  show ?case
  proof (cases r)
    case None
    with step Cons.prems have rest: "RegisterSeeders sm' pre s' = (None, sm1, s1)" by simp
    from step None RegisterSeeder_ok [of sm "Name item" "Function item" s sm' s']
    have "seeders sm' = seeders sm @ [item]"
      and "dom (seederMap sm') = insert (Name item) (dom (seederMap sm))" by simp_all
    with Cons.IH [OF rest] show ?thesis by auto
  next
    case (Some err)
    with step Cons.prems show ?thesis by simp
  qed
qed

section \<open>Running seeders\<close>

lemma loop_eq_in_order:
  "\<forall>item\<in>set items. seederMap sm (Name item) = Some (Function item) \<Longrightarrow>
     RunAllSeeders_loop items s = RunSeedersInOrder sm (map Name items) s"
proof (induction items arbitrary: s)
  case Nil
  then show ?case by simp
next
  case (Cons seeder rest)
  then have look: "seederMap sm (Name seeder) = Some (Function seeder)"
    and rest: "\<forall>item\<in>set rest. seederMap sm (Name item) = Some (Function item)" by simp_all
  show ?case
    using look Cons.IH [OF rest]
    by (simp add: RunSeederByName_def split: prod.splits outcome.splits option.splits)
qed

lemma call_world:
  "world s = world t \<Longrightarrow>
     fst (call f s) = fst (call f t) \<and> world (snd (call f s)) = world (snd (call f t))"
  by (simp add: call_def split: option.splits prod.splits)

lemma RunSeederByName_world:
  assumes "world s = world t"
  shows "fst (RunSeederByName sm name s) = fst (RunSeederByName sm name t) \<and>
         world (snd (RunSeederByName sm name s)) = world (snd (RunSeederByName sm name t))"
proof (cases "seederMap sm name")
  case None
  then show ?thesis using assms by (simp add: RunSeederByName_def)
next
  case (Some f)
  have w: "world (Println (''Running seeder: '' @ name) s) = world (Println (''Running seeder: '' @ name) t)"
    using assms by (simp add: Println_def)
  from call_world [OF w, of f] show ?thesis using Some
    by (auto simp: RunSeederByName_def Println_def split: prod.splits outcome.splits option.splits)
qed

lemma RunSeedersInOrder_world:
  "world s = world t \<Longrightarrow>
     fst (RunSeedersInOrder sm names s) = fst (RunSeedersInOrder sm names t) \<and>
     world (snd (RunSeedersInOrder sm names s)) = world (snd (RunSeedersInOrder sm names t))"
proof (induction names arbitrary: s t)
  case Nil
  then show ?case by simp
next
  case (Cons name names)
  obtain r1 s1 where a: "RunSeederByName sm name s = (r1, s1)" by (cases "RunSeederByName sm name s")
  obtain r2 t1 where b: "RunSeederByName sm name t = (r2, t1)" by (cases "RunSeederByName sm name t")
  from RunSeederByName_world [OF Cons.prems, of sm name] a b
  have eq: "r1 = r2" "world s1 = world t1" by simp_all
  show ?case
  proof (cases "r2 = Return None")
    case True
    then show ?thesis using a b eq Cons.IH [OF eq(2)] by simp
  next
    case False
    then show ?thesis using a b eq by (auto split: outcome.splits option.splits)
  qed
qed

lemma RunSeedersInOrder_append:
  "RunSeedersInOrder sm pre s = (Return None, s1) \<Longrightarrow>
     RunSeedersInOrder sm (pre @ post) s = RunSeedersInOrder sm post s1"
proof (induction pre arbitrary: s)
  case Nil
  then show ?case by simp
next
  case (Cons name pre)
  obtain r s' where step: "RunSeederByName sm name s = (r, s')"
    by (cases "RunSeederByName sm name s")
  show ?case
  proof (cases "r = Return None")
    case True
    with step Cons.prems have "RunSeedersInOrder sm pre s' = (Return None, s1)" by simp
    from Cons.IH [OF this] True step show ?thesis by simp
  next
    case False
    with step Cons.prems have "(r, s') = (Return None, s1)"
      by (auto split: outcome.splits option.splits)
    with False show ?thesis by simp
  qed
qed

lemma RunSeedersInOrder_stop:
  "RunSeederByName sm name s = (r, s') \<Longrightarrow> r \<noteq> Return None \<Longrightarrow>
     RunSeedersInOrder sm (name # post) s = (r, s')"
  by (auto split: outcome.splits option.splits)

section \<open>The examples, evaluated\<close>

lemma two_seeders_eq:
  "two_seeders =
     \<lparr>seeders = [\<lparr>Name = ''users'', Function = seed_ok ''users''\<rparr>,
                 \<lparr>Name = ''departments'', Function = seed_ok ''departments''\<rparr>],
      seederMap = [''users'' \<mapsto> seed_ok ''users'', ''departments'' \<mapsto> seed_ok ''departments'']\<rparr>"
  by (simp add: two_seeders_def RegisterSeeder_def NewSeederManager_def)

lemma three_seeders_eq:
  "three_seeders =
     \<lparr>seeders = [\<lparr>Name = ''A'', Function = seed_ok ''A''\<rparr>,
                 \<lparr>Name = ''B'', Function = seed_fail ''B'' ''boom''\<rparr>,
                 \<lparr>Name = ''C'', Function = seed_ok ''C''\<rparr>],
      seederMap = [''A'' \<mapsto> seed_ok ''A'', ''B'' \<mapsto> seed_fail ''B'' ''boom'', ''C'' \<mapsto> seed_ok ''C'']\<rparr>"
  by (simp add: three_seeders_def RegisterSeeder_def NewSeederManager_def)

lemma ascii_upper_seeder: "ascii_upper ''seeder'' = ''SEEDER''"
  by code_simp

lemma Repeat_60: "Repeat ''='' 60 = ''============================================================''"
  by code_simp

lemma Repeat_40: "Repeat ''-'' 40 = ''----------------------------------------''"
  by code_simp

lemma reachable_built: "reachable (fst (snd (RegisterSeeders NewSeederManager items s)))"
proof -
  obtain r sm' s' where run: "RegisterSeeders NewSeederManager items s = (r, sm', s')"
    by (metis prod_cases3)
  from reachable.register_many [OF reachable.new run] run show ?thesis by simp
qed

lemma two_seeders_reachable: "reachable two_seeders"
  unfolding two_seeders_def by (rule reachable_built)

lemma three_seeders_reachable: "reachable three_seeders"
  unfolding three_seeders_def by (rule reachable_built)

lemma with_all_eq:
  "with_all =
     \<lparr>seeders = [\<lparr>Name = ''all'', Function = seed_ok ''all''\<rparr>,
                 \<lparr>Name = ''users'', Function = seed_ok ''users''\<rparr>],
      seederMap = [''all'' \<mapsto> seed_ok ''all'', ''users'' \<mapsto> seed_ok ''users'']\<rparr>"
  by (simp add: with_all_def RegisterSeeder_def NewSeederManager_def)

lemma fold_Println: "fold Println xs s = s\<lparr>logs := logs s @ xs\<rparr>"
  by (induction xs arbitrary: s) (simp_all add: Println_def)

lemma Usage_loop_logs:
  "Usage_loop app i names s =
     s\<lparr>logs := logs s @
        concat (map (\<lambda>(k, name).
                 [''  '' @ itoa k @ ''. '' @ name, ''     Command: '' @ app @ '' -type='' @ name, []])
               (enumerate (Suc i) names))\<rparr>"
  by (induction names arbitrary: i s) (simp_all add: Println_def del: itoa.simps)

lemma only_all_eq:
  "only_all =
     \<lparr>seeders = [\<lparr>Name = ''all'', Function = seed_ok ''all''\<rparr>],
      seederMap = [''all'' \<mapsto> seed_ok ''all'']\<rparr>"
  by (simp add: only_all_def RegisterSeeder_def NewSeederManager_def)

lemma Usage_closed:
  "Usage ToUpper cli s =
     s\<lparr>logs := logs s @ Usage_head ToUpper (appName cli) @
        (if GetRegisteredSeeders (manager cli) = [] then [''No seeders registered yet.'']
         else
           [''Available seeders (in execution order):'', ''-'' @ Repeat ''-'' 40] @
           concat (map (\<lambda>(k, name).
                    [''  '' @ itoa k @ ''. '' @ name,
                     ''     Command: '' @ appName cli @ '' -type='' @ name,
                     []])
                  (enumerate 1 (GetRegisteredSeeders (manager cli)))) @
           [''Quick commands:'',
            ''  '' @ appName cli @ '' -type=all     # Run all seeders'',
            ''='' @ Repeat ''='' 60])\<rparr>"
  by (simp add: Usage_def fold_Println Usage_loop_logs Println_def Let_def del: itoa.simps)

lemma Usage_world: "world (Usage ToUpper cli s) = world s"
  by (simp add: Usage_def fold_Println Usage_loop_logs Println_def Let_def del: itoa.simps)

section \<open>Registering one seeder\<close>

text \<open>
  C1. \<open>RegisterSeeder\<close> with the empty name returns the invalid-name error; with a name
  that is already a key of the map it returns the duplicate-name error; in both cases
  the manager and the process state are the ones it was given, so the map still holds
  the function of the first registration. With any other name it returns nil, the item
  is appended to the slice, the map gets the name with its function, and one
  confirmation line is logged. This holds for every value of the manager record.
\<close>

theorem RegisterSeeder_spec:
  "(name = [] \<longrightarrow> RegisterSeeder sm name function s = (Some InvalidName, sm, s)) \<and>
   (name \<noteq> [] \<and> name \<in> dom (seederMap sm) \<longrightarrow>
      RegisterSeeder sm name function s = (Some (DuplicateName name), sm, s)) \<and>
   (name \<noteq> [] \<and> name \<notin> dom (seederMap sm) \<longrightarrow>
      RegisterSeeder sm name function s =
        (None,
         sm\<lparr>seeders := seeders sm @ [\<lparr>Name = name, Function = function\<rparr>],
            seederMap := (seederMap sm)(name \<mapsto> function)\<rparr>,
         s\<lparr>logs := logs s @ [''Registered seeder: '' @ name]\<rparr>))"
  by (auto simp: RegisterSeeder_def InvalidName_def DuplicateName_def Errorf_def Println_def)

theorem RegisterSeeder_spec_witness:
  "RegisterSeeder two_seeders [] (seed_ok ''x'') start = (Some InvalidName, two_seeders, start) \<and>
   ''users'' \<in> dom (seederMap two_seeders) \<and>
   RegisterSeeder two_seeders ''users'' (seed_fail ''users'' ''other'') start =
     (Some (DuplicateName ''users''), two_seeders, start) \<and>
   seederMap two_seeders ''users'' = Some (seed_ok ''users'') \<and>
   ''roles'' \<notin> dom (seederMap two_seeders) \<and>
   fst (RegisterSeeder two_seeders ''roles'' (seed_ok ''roles'') start) = None \<and>
   GetRegisteredSeeders (fst (snd (RegisterSeeder two_seeders ''roles'' (seed_ok ''roles'') start))) =
     [''users'', ''departments'', ''roles''] \<and>
   logs (snd (snd (RegisterSeeder two_seeders ''roles'' (seed_ok ''roles'') start))) =
     [''Registered seeder: roles'']"
  using RegisterSeeder_spec [of "[]" two_seeders "seed_ok ''x''" start]
    RegisterSeeder_spec [of "''users''" two_seeders "seed_fail ''users'' ''other''" start]
    RegisterSeeder_spec [of "''roles''" two_seeders "seed_ok ''roles''" start]
  by (simp add: two_seeders_eq GetRegisteredSeeders_def start_def)

section \<open>Running all seeders and running them in order\<close>

text \<open>
  C2. On every manager that registration can produce, \<open>RunAllSeeders\<close> and
  \<open>RunSeedersInOrder\<close> on the names \<open>GetRegisteredSeeders\<close> returns end the same way
  (nil, the same first error, the same panic or exit) and leave the same world. The
  statement is for every world type and every seeder function, so the two call the
  same functions in the same order: the examples after it take the list of the seeders
  that ran as the world. The third part is the exact relation, logger included:
  \<open>RunAllSeeders\<close> is \<open>RunSeedersInOrder\<close> on the registered names between its own
  two lines, the opening one and, on success, the closing one.
\<close>

theorem RunAllSeeders_equiv:
  assumes "reachable sm"
  shows "fst (RunAllSeeders sm s) = fst (RunSeedersInOrder sm (GetRegisteredSeeders sm) s) \<and>
         world (snd (RunAllSeeders sm s)) =
           world (snd (RunSeedersInOrder sm (GetRegisteredSeeders sm) s)) \<and>
         RunAllSeeders sm s =
           (case RunSeedersInOrder sm (GetRegisteredSeeders sm) (Println ''Running all seeders...'' s) of
              (Return None, s') \<Rightarrow> (Return None, Println ''All seeders completed successfully!'' s')
            | (r, s') \<Rightarrow> (r, s'))"
proof -
  let ?names = "GetRegisteredSeeders sm"
  let ?s0 = "Println ''Running all seeders...'' s"
  from assms have c: "consistent sm" by (rule reachable_consistent)
  then have "\<forall>item\<in>set (seeders sm). seederMap sm (Name item) = Some (Function item)"
    by (simp add: consistent_lookup)
  then have loop: "RunAllSeeders_loop (seeders sm) ?s0 = RunSeedersInOrder sm ?names ?s0"
    unfolding GetRegisteredSeeders_def by (rule loop_eq_in_order)
  have exact: "RunAllSeeders sm s =
           (case RunSeedersInOrder sm ?names ?s0 of
              (Return None, s') \<Rightarrow> (Return None, Println ''All seeders completed successfully!'' s')
            | (r, s') \<Rightarrow> (r, s'))"
    by (simp add: RunAllSeeders_def loop)
  have "world ?s0 = world s" by (simp add: Println_def)
  from RunSeedersInOrder_world [OF this, of sm ?names]
  have same: "fst (RunSeedersInOrder sm ?names ?s0) = fst (RunSeedersInOrder sm ?names s)"
    "world (snd (RunSeedersInOrder sm ?names ?s0)) = world (snd (RunSeedersInOrder sm ?names s))"
    by simp_all
  obtain r s1 where run: "RunSeedersInOrder sm ?names ?s0 = (r, s1)"
    by (cases "RunSeedersInOrder sm ?names ?s0")
  have "fst (RunAllSeeders sm s) = r \<and> world (snd (RunAllSeeders sm s)) = world s1"
    using exact run by (auto simp: Println_def split: outcome.splits option.splits)
  with same run exact show ?thesis by simp
qed

theorem RunAllSeeders_equiv_witness:
  "reachable three_seeders \<and>
   fst (RunAllSeeders three_seeders start) =
     Return (Some (ExecutionFailed ''B'' (ErrorString ''boom''))) \<and>
   fst (RunSeedersInOrder three_seeders (GetRegisteredSeeders three_seeders) start) =
     Return (Some (ExecutionFailed ''B'' (ErrorString ''boom''))) \<and>
   world (snd (RunAllSeeders three_seeders start)) = [''A'', ''B''] \<and>
   world (snd (RunSeedersInOrder three_seeders (GetRegisteredSeeders three_seeders) start)) =
     [''A'', ''B'']"
  using RunAllSeeders_equiv [OF three_seeders_reachable, of start] three_seeders_reachable
  by (simp add: three_seeders_eq GetRegisteredSeeders_def RunSeederByName_def call_def
      seed_ok_def seed_fail_def Println_def start_def ExecutionFailed_def Errorf_w_def)

section \<open>The invariant\<close>

text \<open>
  C3. On every manager reachable from \<open>NewSeederManager\<close> by \<open>RegisterSeeder\<close> and
  \<open>RegisterSeeders\<close>, the names in the slice are the keys of the map and no name
  occurs twice. Every further call keeps this and only appends: \<open>RegisterSeeder\<close>
  leaves the slice as it is when it returns an error and puts the new item at its end
  when it returns nil; \<open>RegisterSeeders\<close> extends the slice by the first \<open>k\<close> of
  its items, in their order, all of them exactly when it returns nil. The other methods
  return no manager: they assign to no field.
\<close>

theorem registry_invariant:
  assumes "reachable sm"
  shows "set (GetRegisteredSeeders sm) = dom (seederMap sm) \<and>
         distinct (GetRegisteredSeeders sm) \<and>
         (\<forall>name function s. \<exists>r sm' s'.
            RegisterSeeder sm name function s = (r, sm', s') \<and>
            seeders sm' =
              (if r = None then seeders sm @ [\<lparr>Name = name, Function = function\<rparr>] else seeders sm) \<and>
            set (GetRegisteredSeeders sm') = dom (seederMap sm') \<and>
            distinct (GetRegisteredSeeders sm')) \<and>
         (\<forall>items s. \<exists>r sm' s' k.
            RegisterSeeders sm items s = (r, sm', s') \<and>
            k \<le> length items \<and> (r = None \<longleftrightarrow> k = length items) \<and>
            seeders sm' = seeders sm @ take k items \<and>
            set (GetRegisteredSeeders sm') = dom (seederMap sm') \<and>
            distinct (GetRegisteredSeeders sm'))"
proof -
  have inv: "set (GetRegisteredSeeders m) = dom (seederMap m) \<and> distinct (GetRegisteredSeeders m)"
    if "consistent m" for m :: "'a SeederManager"
    using that consistent_dom [OF that] by (simp add: GetRegisteredSeeders_def consistent_def)
  from assms have c: "consistent sm" by (rule reachable_consistent)
  have one: "\<exists>r sm' s'.
            RegisterSeeder sm name fn s = (r, sm', s') \<and>
            seeders sm' =
              (if r = None then seeders sm @ [\<lparr>Name = name, Function = fn\<rparr>] else seeders sm) \<and>
            set (GetRegisteredSeeders sm') = dom (seederMap sm') \<and>
            distinct (GetRegisteredSeeders sm')" for name fn s
  proof -
    obtain r sm' s' where step: "RegisterSeeder sm name fn s = (r, sm', s')"
      by (metis prod_cases3)
    have "seeders sm' =
            (if r = None then seeders sm @ [\<lparr>Name = name, Function = fn\<rparr>] else seeders sm)"
    proof (cases r)
      case None
      with step RegisterSeeder_ok [of sm name fn s sm' s'] show ?thesis by simp
    next
      case (Some err)
      with step RegisterSeeder_failed [of sm name fn s err sm' s'] show ?thesis by simp
    qed
    with step inv [OF consistent_register [OF c step]] show ?thesis by blast
  qed
  have many: "\<exists>r sm' s' k.
            RegisterSeeders sm items s = (r, sm', s') \<and>
            k \<le> length items \<and> (r = None \<longleftrightarrow> k = length items) \<and>
            seeders sm' = seeders sm @ take k items \<and>
            set (GetRegisteredSeeders sm') = dom (seederMap sm') \<and>
            distinct (GetRegisteredSeeders sm')" for items s
  proof -
    obtain r sm' s' where run: "RegisterSeeders sm items s = (r, sm', s')"
      by (metis prod_cases3)
    from RegisterSeeders_extends [OF run] obtain k where
      "k \<le> length items" "seeders sm' = seeders sm @ take k items" "r = None \<longleftrightarrow> k = length items"
      by blast
    with run inv [OF consistent_register_many [OF c run]] show ?thesis by blast
  qed
  from inv [OF c] one many show ?thesis by blast
qed

theorem registry_invariant_witness:
  "reachable two_seeders \<and>
   GetRegisteredSeeders two_seeders = [''users'', ''departments''] \<and>
   set (GetRegisteredSeeders two_seeders) = dom (seederMap two_seeders) \<and>
   distinct (GetRegisteredSeeders two_seeders) \<and>
   GetRegisteredSeeders (fst (snd (RegisterSeeder two_seeders ''users'' (seed_ok ''again'') start))) =
     [''users'', ''departments''] \<and>
   GetRegisteredSeeders (fst (snd (RegisterSeeder two_seeders ''roles'' (seed_ok ''roles'') start))) =
     [''users'', ''departments'', ''roles''] \<and>
   GetRegisteredSeeders (fst (snd (RegisterSeeders two_seeders
       [\<lparr>Name = ''roles'', Function = seed_ok ''roles''\<rparr>,
        \<lparr>Name = ''users'', Function = seed_ok ''again''\<rparr>,
        \<lparr>Name = ''teams'', Function = seed_ok ''teams''\<rparr>] start))) =
     [''users'', ''departments'', ''roles'']"
  using registry_invariant [OF two_seeders_reachable] two_seeders_reachable
  by (simp add: two_seeders_eq GetRegisteredSeeders_def RegisterSeeder_def)

section \<open>Running one seeder\<close>

text \<open>
  C4. \<open>RunSeederByName\<close> on a name that is not a key of the map returns the not-found
  error and leaves the whole state, world and logger, as it was. On a name registered
  with a function \<open>g\<close>, the world afterwards is the one a single call of \<open>g\<close> on the
  world before gives; when \<open>g\<close> returns nil the result is nil, and when \<open>g\<close>
  returns an error \<open>cause\<close> the result is an error whose message holds the name and
  the message of \<open>cause\<close> and whose wrapped error is \<open>cause\<close>. (A name registered
  with the nil function has no function to call: the call panics.)
\<close>

theorem RunSeederByName_spec:
  "(seederMap sm name = None \<longrightarrow>
      RunSeederByName sm name s = (Return (Some (NotFound name)), s)) \<and>
   (\<forall>g w'. seederMap sm name = Some (Some g) \<and> g (world s) = (Return None, w') \<longrightarrow>
      RunSeederByName sm name s =
        (Return None,
         s\<lparr>logs := logs s @ [''Running seeder: '' @ name,
                               ''Seeder '' @ sq @ name @ sq @ '' completed successfully''],
           world := w'\<rparr>)) \<and>
   (\<forall>g cause w'. seederMap sm name = Some (Some g) \<and> g (world s) = (Return (Some cause), w') \<longrightarrow>
      RunSeederByName sm name s =
        (Return (Some (ExecutionFailed name cause)),
         s\<lparr>logs := logs s @ [''Running seeder: '' @ name], world := w'\<rparr>) \<and>
      Unwrap (ExecutionFailed name cause) = Some cause \<and>
      Error (ExecutionFailed name cause) = ''seeder '' @ sq @ name @ sq @ '' failed: '' @ Error cause)"
  by (simp add: RunSeederByName_def NotFound_def ExecutionFailed_def Errorf_def Errorf_w_def
      call_def Println_def)

theorem RunSeederByName_spec_witness:
  "seederMap three_seeders ''D'' = None \<and>
   RunSeederByName three_seeders ''D'' start = (Return (Some (NotFound ''D'')), start) \<and>
   RunSeederByName three_seeders ''A'' start =
     (Return None,
      \<lparr>logs = [''Running seeder: A'', ''Seeder '' @ sq @ ''A'' @ sq @ '' completed successfully''],
       world = [''A'']\<rparr>) \<and>
   RunSeederByName three_seeders ''B'' start =
     (Return (Some (ExecutionFailed ''B'' (ErrorString ''boom''))),
      \<lparr>logs = [''Running seeder: B''], world = [''B'']\<rparr>) \<and>
   Error (ExecutionFailed ''B'' (ErrorString ''boom'')) = ''seeder '' @ sq @ ''B'' @ sq @ '' failed: boom''"
  using RunSeederByName_spec [of three_seeders "''D''" start]
    RunSeederByName_spec [of three_seeders "''A''" start]
    RunSeederByName_spec [of three_seeders "''B''" start]
  by (simp add: three_seeders_eq seed_ok_def seed_fail_def start_def)

section \<open>Running seeders in a given order\<close>

text \<open>
  C5. \<open>RunSeedersInOrder\<close> on no names returns nil and changes nothing. It goes
  through the names from the left, one \<open>RunSeederByName\<close> after the other on the state
  the one before left: when the names \<open>pre\<close> all return nil, the run on
  \<open>pre @ post\<close> is the run on \<open>post\<close> from the state after \<open>pre\<close>. When the next
  name after \<open>pre\<close> does not return nil, what it returned is the result as it is, the
  state is the one that call left, and the names \<open>post\<close> after it play no part.
\<close>

theorem RunSeedersInOrder_spec:
  "RunSeedersInOrder sm [] s = (Return None, s) \<and>
   (\<forall>name names s1. RunSeederByName sm name s = (Return None, s1) \<longrightarrow>
      RunSeedersInOrder sm (name # names) s = RunSeedersInOrder sm names s1) \<and>
   (\<forall>pre s1 post. RunSeedersInOrder sm pre s = (Return None, s1) \<longrightarrow>
      RunSeedersInOrder sm (pre @ post) s = RunSeedersInOrder sm post s1) \<and>
   (\<forall>pre s1 name r s2 post.
      RunSeedersInOrder sm pre s = (Return None, s1) \<and>
      RunSeederByName sm name s1 = (r, s2) \<and> r \<noteq> Return None \<longrightarrow>
      RunSeedersInOrder sm (pre @ name # post) s = (r, s2))"
proof -
  have "RunSeedersInOrder sm (pre @ name # post) s = (r, s2)"
    if "RunSeedersInOrder sm pre s = (Return None, s1)"
      and "RunSeederByName sm name s1 = (r, s2)" and "r \<noteq> Return None"
    for pre s1 name r s2 post
    using RunSeedersInOrder_append [OF that(1), of "name # post"]
      RunSeedersInOrder_stop [OF that(2,3), of post] by simp
  then show ?thesis
    using RunSeedersInOrder_append [of sm _ s] by auto
qed

theorem RunSeedersInOrder_spec_witness:
  "RunSeedersInOrder three_seeders [] start = (Return None, start) \<and>
   RunSeedersInOrder three_seeders [''C''] start =
     (Return None,
      \<lparr>logs = [''Running seeder: C'', ''Seeder '' @ sq @ ''C'' @ sq @ '' completed successfully''],
       world = [''C'']\<rparr>) \<and>
   RunSeedersInOrder three_seeders [''C'', ''B'', ''A''] start =
     (Return (Some (ExecutionFailed ''B'' (ErrorString ''boom''))),
      \<lparr>logs = [''Running seeder: C'', ''Seeder '' @ sq @ ''C'' @ sq @ '' completed successfully'',
               ''Running seeder: B''],
       world = [''C'', ''B'']\<rparr>)"
proof -
  let ?s1 = "\<lparr>logs = [''Running seeder: C'', ''Seeder '' @ sq @ ''C'' @ sq @ '' completed successfully''],
       world = [''C'']\<rparr>"
  let ?s2 = "\<lparr>logs = [''Running seeder: C'', ''Seeder '' @ sq @ ''C'' @ sq @ '' completed successfully'',
               ''Running seeder: B''],
       world = [''C'', ''B'']\<rparr>"
  let ?r = "Return (Some (ExecutionFailed ''B'' (ErrorString ''boom'')))"
  have pre: "RunSeedersInOrder three_seeders [''C''] start = (Return None, ?s1)"
    by (simp add: three_seeders_eq RunSeederByName_def call_def seed_ok_def Println_def start_def)
  have step: "RunSeederByName three_seeders ''B'' ?s1 = (?r, ?s2)"
    by (simp add: three_seeders_eq RunSeederByName_def call_def seed_fail_def Println_def
        ExecutionFailed_def Errorf_w_def)
  have stop: "?r \<noteq> Return None" by simp
  from RunSeedersInOrder_spec [of three_seeders start]
  have "RunSeedersInOrder three_seeders [] start = (Return None, start)"
    and "\<forall>pre s1 name r s2 post.
      RunSeedersInOrder three_seeders pre start = (Return None, s1) \<and>
      RunSeederByName three_seeders name s1 = (r, s2) \<and> r \<noteq> Return None \<longrightarrow>
      RunSeedersInOrder three_seeders (pre @ name # post) start = (r, s2)"
    by blast+
  with pre step stop
  have "RunSeedersInOrder three_seeders [] start = (Return None, start)"
    and "RunSeedersInOrder three_seeders ([''C''] @ ''B'' # [''A'']) start = (?r, ?s2)"
    by blast+
  with pre show ?thesis by simp
qed

section \<open>Registering several seeders\<close>

text \<open>
  C6. \<open>RegisterSeeders\<close> on no items returns nil and changes nothing. It registers
  the items from the left by \<open>RegisterSeeder\<close>: when the items \<open>pre\<close> are all
  accepted, they are at the end of the slice in their order, their names are keys of
  the map, and the call on \<open>pre @ rest\<close> goes on with \<open>rest\<close> from there. When
  \<open>RegisterSeeder\<close> refuses the item after \<open>pre\<close> with the error \<open>cause\<close>, the
  result is an error whose message holds the item's name and the message of \<open>cause\<close>
  and whose wrapped error is \<open>cause\<close>; the manager is the one after \<open>pre\<close>, with
  those items still registered, and the items \<open>rest\<close> play no part.
\<close>

theorem RegisterSeeders_spec:
  "RegisterSeeders sm [] s = (None, sm, s) \<and>
   (\<forall>item rest sm1 s1.
      RegisterSeeder sm (Name item) (Function item) s = (None, sm1, s1) \<longrightarrow>
      RegisterSeeders sm (item # rest) s = RegisterSeeders sm1 rest s1) \<and>
   (\<forall>pre sm1 s1 rest.
      RegisterSeeders sm pre s = (None, sm1, s1) \<longrightarrow>
      seeders sm1 = seeders sm @ pre \<and>
      dom (seederMap sm1) = dom (seederMap sm) \<union> Name ` set pre \<and>
      RegisterSeeders sm (pre @ rest) s = RegisterSeeders sm1 rest s1) \<and>
   (\<forall>pre sm1 s1 item cause sm2 s2 rest.
      RegisterSeeders sm pre s = (None, sm1, s1) \<and>
      RegisterSeeder sm1 (Name item) (Function item) s1 = (Some cause, sm2, s2) \<longrightarrow>
      RegisterSeeders sm (pre @ item # rest) s =
        (Some (WrapError
           (''failed to register seeder '' @ sq @ Name item @ sq @ '': '' @ Error cause) cause),
         sm1, s1))"
proof -
  have fail: "RegisterSeeders sm (pre @ item # rest) s =
        (Some (WrapError
           (''failed to register seeder '' @ sq @ Name item @ sq @ '': '' @ Error cause) cause),
         sm1, s1)"
    if "RegisterSeeders sm pre s = (None, sm1, s1)"
      and "RegisterSeeder sm1 (Name item) (Function item) s1 = (Some cause, sm2, s2)"
    for pre sm1 s1 item cause sm2 s2 rest
  proof -
    from RegisterSeeder_failed [OF that(2)] have "sm2 = sm1" "s2 = s1" by simp_all
    with that(2) RegisterSeeders_append [OF that(1), of "item # rest"]
    show ?thesis by (simp add: Errorf_w_def)
  qed
  show ?thesis
    using RegisterSeeders_append [of sm _ s] RegisterSeeders_ok [of sm _ s] fail
    by (intro conjI allI impI) (simp_all, blast+)
qed

theorem RegisterSeeders_spec_witness:
  "RegisterSeeders NewSeederManager [] start = (None, NewSeederManager, start) \<and>
   fst (RegisterSeeders NewSeederManager [\<lparr>Name = ''users'', Function = seed_ok ''users''\<rparr>] start) =
     None \<and>
   RegisterSeeders NewSeederManager
     [\<lparr>Name = ''users'', Function = seed_ok ''users''\<rparr>,
      \<lparr>Name = ''users'', Function = seed_fail ''users'' ''other''\<rparr>,
      \<lparr>Name = ''departments'', Function = seed_ok ''departments''\<rparr>] start =
     (Some (WrapError
        (''failed to register seeder '' @ sq @ ''users'' @ sq @ '': seeder with name '' @ sq @
         ''users'' @ sq @ '' already exists'')
        (DuplicateName ''users'')),
      \<lparr>seeders = [\<lparr>Name = ''users'', Function = seed_ok ''users''\<rparr>],
       seederMap = [''users'' \<mapsto> seed_ok ''users'']\<rparr>,
      \<lparr>logs = [''Registered seeder: users''], world = []\<rparr>)"
proof -
  let ?users = "\<lparr>Name = ''users'', Function = seed_ok ''users''\<rparr>"
  let ?again = "\<lparr>Name = ''users'', Function = seed_fail ''users'' ''other''\<rparr>"
  let ?departments = "\<lparr>Name = ''departments'', Function = seed_ok ''departments''\<rparr>"
  let ?sm1 = "\<lparr>seeders = [?users], seederMap = [''users'' \<mapsto> seed_ok ''users'']\<rparr>"
  let ?s1 = "\<lparr>logs = [''Registered seeder: users''], world = [] :: string list\<rparr>"
  have pre: "RegisterSeeders NewSeederManager [?users] start = (None, ?sm1, ?s1)"
    by (simp add: RegisterSeeder_def NewSeederManager_def Println_def start_def)
  have refused: "RegisterSeeder ?sm1 (Name ?again) (Function ?again) ?s1 =
      (Some (DuplicateName ''users''), ?sm1, ?s1)"
    by (simp add: RegisterSeeder_def DuplicateName_def Errorf_def)
  from RegisterSeeders_spec [of NewSeederManager start]
  have "RegisterSeeders NewSeederManager [] start = (None, NewSeederManager, start)"
    and "\<forall>pre sm1 s1 item cause sm2 s2 rest.
      RegisterSeeders NewSeederManager pre start = (None, sm1, s1) \<and>
      RegisterSeeder sm1 (Name item) (Function item) s1 = (Some cause, sm2, s2) \<longrightarrow>
      RegisterSeeders NewSeederManager (pre @ item # rest) start =
        (Some (WrapError
           (''failed to register seeder '' @ sq @ Name item @ sq @ '': '' @ Error cause) cause),
         sm1, s1)"
    by blast+
  with pre refused
  have "RegisterSeeders NewSeederManager [] start = (None, NewSeederManager, start)"
    and "RegisterSeeders NewSeederManager ([?users] @ ?again # [?departments]) start =
        (Some (WrapError
           (''failed to register seeder '' @ sq @ Name ?again @ sq @ '': '' @
            Error (DuplicateName ''users'')) (DuplicateName ''users'')),
         ?sm1, ?s1)"
    by blast+
  with pre show ?thesis by (simp add: DuplicateName_def)
qed

section \<open>Which names are registered\<close>

text \<open>
  C7. \<open>IsSeederRegistered\<close> holds of a name exactly when the name is a key of the
  map, which on a reachable manager is exactly when the name is in the slice; and on a
  reachable manager it does not hold of the empty name.
\<close>

theorem IsSeederRegistered_spec:
  assumes "reachable sm"
  shows "(IsSeederRegistered sm name \<longleftrightarrow> name \<in> dom (seederMap sm)) \<and>
         (IsSeederRegistered sm name \<longleftrightarrow> name \<in> set (GetRegisteredSeeders sm)) \<and>
         \<not> IsSeederRegistered sm []"
proof -
  from assms have c: "consistent sm" by (rule reachable_consistent)
  have a: "IsSeederRegistered sm n \<longleftrightarrow> n \<in> dom (seederMap sm)" for n
    by (auto simp: IsSeederRegistered_def)
  from c have "[] \<notin> dom (seederMap sm)"
    unfolding consistent_dom [OF c] by (simp add: consistent_def)
  with a consistent_dom [OF c] show ?thesis by (simp add: GetRegisteredSeeders_def)
qed

theorem IsSeederRegistered_spec_witness:
  "reachable two_seeders \<and> IsSeederRegistered two_seeders ''users'' \<and>
   ''users'' \<in> dom (seederMap two_seeders) \<and>
   \<not> IsSeederRegistered two_seeders ''roles'' \<and>
   \<not> IsSeederRegistered two_seeders []"
  using IsSeederRegistered_spec [OF two_seeders_reachable, of "''users''"]
    IsSeederRegistered_spec [OF two_seeders_reachable, of "''roles''"] two_seeders_reachable
  by (simp add: two_seeders_eq GetRegisteredSeeders_def)

section \<open>The command line\<close>

text \<open>
  C8. \<open>Run\<close> with the empty \<open>seedType\<close> is \<open>Usage\<close> and nil: the lines of the
  usage text, written out below as \<open>usage\<close>, are appended to the logger and nothing else
  changes. With \<open>all\<close> it is \<open>RunAllSeeders\<close>, and with any other name that is
  registered it is \<open>RunSeederByName\<close> on that name, in both cases after the line that
  announces the type. With any other name the logger gets the line that announces the
  type, the line that the type is unknown, the registered names and then the same usage
  text; the world stays as it is and the process exits with status 1.
\<close>

theorem Run_spec:
  "let names = GetRegisteredSeeders (manager cli);
       usage =
         Usage_head ToUpper (appName cli) @
         (if names = [] then [''No seeders registered yet.'']
          else
            [''Available seeders (in execution order):'', ''-'' @ Repeat ''-'' 40] @
            concat (map (\<lambda>(k, name).
                     [''  '' @ itoa k @ ''. '' @ name,
                      ''     Command: '' @ appName cli @ '' -type='' @ name,
                      []])
                   (enumerate 1 names)) @
            [''Quick commands:'',
             ''  '' @ appName cli @ '' -type=all     # Run all seeders'',
             ''='' @ Repeat ''='' 60])
   in
   (seedType = [] \<longrightarrow>
      Run ToUpper cli seedType s = (Return None, Usage ToUpper cli s) \<and>
      Usage ToUpper cli s = s\<lparr>logs := logs s @ usage\<rparr>) \<and>
   (seedType = ''all'' \<longrightarrow>
      Run ToUpper cli seedType s =
        RunAllSeeders (manager cli) (Println ''Starting seeder with type: all'' s)) \<and>
   (seedType \<noteq> [] \<and> seedType \<noteq> ''all'' \<and> IsSeederRegistered (manager cli) seedType \<longrightarrow>
      Run ToUpper cli seedType s =
        RunSeederByName (manager cli) seedType
          (Println (''Starting seeder with type: '' @ seedType) s)) \<and>
   (seedType \<noteq> [] \<and> seedType \<noteq> ''all'' \<and> \<not> IsSeederRegistered (manager cli) seedType \<longrightarrow>
      Run ToUpper cli seedType s =
        (Exit 1,
         Usage ToUpper cli
           (s\<lparr>logs := logs s @
              [''Starting seeder with type: '' @ seedType,
               ''Unknown seeder type: '' @ seedType,
               ''Available seeders: '' @ Sprint_slice names]\<rparr>)) \<and>
      Usage ToUpper cli
        (s\<lparr>logs := logs s @
           [''Starting seeder with type: '' @ seedType,
            ''Unknown seeder type: '' @ seedType,
            ''Available seeders: '' @ Sprint_slice names]\<rparr>) =
        s\<lparr>logs := logs s @
           [''Starting seeder with type: '' @ seedType,
            ''Unknown seeder type: '' @ seedType,
            ''Available seeders: '' @ Sprint_slice names] @ usage\<rparr>)"
  by (simp add: Run_def Usage_closed Println_def Let_def del: itoa.simps)

theorem Run_spec_witness:
  "Run ascii_upper (NewCLI two_seeders) [] start =
     (Return None,
      \<lparr>logs = [''============================================================='',
               ''DATABASE SEEDER - SEEDER'',
               ''============================================================='',
               [],
               ''Usage:'',
               ''  seeder -type=all     # Run all seeders'',
               ''  seeder -type=<name>  # Run specific seeder'',
               ''  seeder               # Show this help'',
               [],
               ''Available seeders (in execution order):'',
               ''-----------------------------------------'',
               ''  1. users'',
               ''     Command: seeder -type=users'',
               [],
               ''  2. departments'',
               ''     Command: seeder -type=departments'',
               [],
               ''Quick commands:'',
               ''  seeder -type=all     # Run all seeders'',
               ''=============================================================''],
       world = []\<rparr>) \<and>
   Run ascii_upper (NewCLI (NewSeederManager :: string list SeederManager)) [] start =
     (Return None,
      \<lparr>logs = [''============================================================='',
               ''DATABASE SEEDER - SEEDER'',
               ''============================================================='',
               [],
               ''Usage:'',
               ''  seeder -type=all     # Run all seeders'',
               ''  seeder -type=<name>  # Run specific seeder'',
               ''  seeder               # Show this help'',
               [],
               ''No seeders registered yet.''],
       world = []\<rparr>) \<and>
   Run ascii_upper (NewCLI two_seeders) ''all'' start =
     (Return None,
      \<lparr>logs = [''Starting seeder with type: all'',
               ''Running all seeders...'',
               ''Running seeder: users'',
               ''Seeder '' @ sq @ ''users'' @ sq @ '' completed successfully'',
               ''Running seeder: departments'',
               ''Seeder '' @ sq @ ''departments'' @ sq @ '' completed successfully'',
               ''All seeders completed successfully!''],
       world = [''users'', ''departments'']\<rparr>) \<and>
   IsSeederRegistered (manager (NewCLI two_seeders)) ''departments'' \<and>
   Run ascii_upper (NewCLI two_seeders) ''departments'' start =
     (Return None,
      \<lparr>logs = [''Starting seeder with type: departments'',
               ''Running seeder: departments'',
               ''Seeder '' @ sq @ ''departments'' @ sq @ '' completed successfully''],
       world = [''departments'']\<rparr>) \<and>
   \<not> IsSeederRegistered (manager (NewCLI two_seeders)) ''roles'' \<and>
   Run ascii_upper (NewCLI two_seeders) ''roles'' start =
     (Exit 1,
      \<lparr>logs = [''Starting seeder with type: roles'',
               ''Unknown seeder type: roles'',
               ''Available seeders: [users departments]'',
               ''============================================================='',
               ''DATABASE SEEDER - SEEDER'',
               ''============================================================='',
               [],
               ''Usage:'',
               ''  seeder -type=all     # Run all seeders'',
               ''  seeder -type=<name>  # Run specific seeder'',
               ''  seeder               # Show this help'',
               [],
               ''Available seeders (in execution order):'',
               ''-----------------------------------------'',
               ''  1. users'',
               ''     Command: seeder -type=users'',
               [],
               ''  2. departments'',
               ''     Command: seeder -type=departments'',
               [],
               ''Quick commands:'',
               ''  seeder -type=all     # Run all seeders'',
               ''=============================================================''],
       world = []\<rparr>)"
  using Run_spec [where seedType = "[]" and ToUpper = ascii_upper and cli = "NewCLI two_seeders"
        and s = start]
    Run_spec [where seedType = "[]" and ToUpper = ascii_upper
        and cli = "NewCLI (NewSeederManager :: string list SeederManager)" and s = start]
    Run_spec [where seedType = "''all''" and ToUpper = ascii_upper and cli = "NewCLI two_seeders"
        and s = start]
    Run_spec [where seedType = "''departments''" and ToUpper = ascii_upper
        and cli = "NewCLI two_seeders" and s = start]
    Run_spec [where seedType = "''roles''" and ToUpper = ascii_upper and cli = "NewCLI two_seeders"
        and s = start]
  by (simp add: NewCLI_def NewSeederManager_def two_seeders_eq IsSeederRegistered_def
      RunAllSeeders_def RunSeederByName_def call_def seed_ok_def Println_def start_def
      GetRegisteredSeeders_def Sprint_slice_def Usage_head_def Repeat_60 Repeat_40
      ascii_upper_seeder enumerate_eq_zip Let_def)

section \<open>The usage text, line by line\<close>

text \<open>
  C9. \<open>Usage\<close> returns a state for every input: nothing in it can fail. It only
  appends to the logger. With no seeder registered the lines are the head followed by the
  one line that none is registered yet. Otherwise the head is followed by the two lines
  that open the listing, then for each registered name, in the order of
  \<open>GetRegisteredSeeders\<close> and counted from 1, its number with the name, the command
  that runs it alone and an empty line, then the three closing lines. \<open>enumerate 1\<close>
  pairs the names with 1, 2, ...: the listing has one entry for each name.
\<close>

theorem Usage_spec:
  "(GetRegisteredSeeders (manager cli) = [] \<longrightarrow>
      Usage ToUpper cli s =
        s\<lparr>logs := logs s @ Usage_head ToUpper (appName cli) @ [''No seeders registered yet.'']\<rparr>) \<and>
   (GetRegisteredSeeders (manager cli) \<noteq> [] \<longrightarrow>
      Usage ToUpper cli s =
        s\<lparr>logs := logs s @ Usage_head ToUpper (appName cli) @
           [''Available seeders (in execution order):'', ''-'' @ Repeat ''-'' 40] @
           concat (map (\<lambda>(k, name).
                    [''  '' @ itoa k @ ''. '' @ name,
                     ''     Command: '' @ appName cli @ '' -type='' @ name,
                     []])
                  (enumerate 1 (GetRegisteredSeeders (manager cli)))) @
           [''Quick commands:'',
            ''  '' @ appName cli @ '' -type=all     # Run all seeders'',
            ''='' @ Repeat ''='' 60]\<rparr>) \<and>
   map snd (enumerate 1 (GetRegisteredSeeders (manager cli))) = GetRegisteredSeeders (manager cli) \<and>
   map fst (enumerate 1 (GetRegisteredSeeders (manager cli))) =
     [1..<Suc (length (GetRegisteredSeeders (manager cli)))]"
  by (simp add: Usage_def fold_Println Usage_loop_logs Println_def Let_def del: itoa.simps)

theorem Usage_spec_witness:
  "GetRegisteredSeeders (manager (NewCLI (NewSeederManager :: string list SeederManager))) = [] \<and>
   Usage ascii_upper (NewCLI NewSeederManager) start =
     \<lparr>logs = [''============================================================='',
              ''DATABASE SEEDER - SEEDER'',
              ''============================================================='',
              [],
              ''Usage:'',
              ''  seeder -type=all     # Run all seeders'',
              ''  seeder -type=<name>  # Run specific seeder'',
              ''  seeder               # Show this help'',
              [],
              ''No seeders registered yet.''],
      world = []\<rparr> \<and>
   GetRegisteredSeeders (manager (NewCLI two_seeders)) \<noteq> [] \<and>
   Usage ascii_upper (NewCLI two_seeders) start =
     \<lparr>logs = [''============================================================='',
              ''DATABASE SEEDER - SEEDER'',
              ''============================================================='',
              [],
              ''Usage:'',
              ''  seeder -type=all     # Run all seeders'',
              ''  seeder -type=<name>  # Run specific seeder'',
              ''  seeder               # Show this help'',
              [],
              ''Available seeders (in execution order):'',
              ''-----------------------------------------'',
              ''  1. users'',
              ''     Command: seeder -type=users'',
              [],
              ''  2. departments'',
              ''     Command: seeder -type=departments'',
              [],
              ''Quick commands:'',
              ''  seeder -type=all     # Run all seeders'',
              ''=============================================================''],
      world = []\<rparr>"
  using Usage_spec [of "NewCLI (NewSeederManager :: string list SeederManager)" ascii_upper start]
    Usage_spec [of "NewCLI two_seeders" ascii_upper start]
  by (simp add: NewCLI_def NewSeederManager_def two_seeders_eq GetRegisteredSeeders_def
      Usage_head_def Repeat_60 Repeat_40 ascii_upper_seeder start_def enumerate_eq_zip)

section \<open>A seeder named all\<close>

text \<open>
  C10. \<open>RegisterSeeder\<close> accepts the name \<open>all\<close> like any other, and
  \<open>RunSeederByName\<close> called directly finds it. Through \<open>Run\<close> the lookup by name is
  never made for it: \<open>Run\<close> with \<open>all\<close> is \<open>RunAllSeeders\<close>, whatever is
  registered, and with any other \<open>seedType\<close> it returns nil with the world as it was
  (the empty one), or is \<open>RunSeederByName\<close> on that very \<open>seedType\<close>, or exits
  with the world as it was. So the seeder named \<open>all\<close> runs through \<open>Run\<close> only
  inside \<open>RunAllSeeders\<close>.
\<close>

theorem Run_all_reserved:
  "Run ToUpper cli ''all'' s =
     RunAllSeeders (manager cli) (Println ''Starting seeder with type: all'' s) \<and>
   (seedType = [] \<longrightarrow>
      fst (Run ToUpper cli seedType s) = Return None \<and>
      world (snd (Run ToUpper cli seedType s)) = world s) \<and>
   (seedType \<noteq> [] \<and> seedType \<noteq> ''all'' \<and> IsSeederRegistered (manager cli) seedType \<longrightarrow>
      Run ToUpper cli seedType s =
        RunSeederByName (manager cli) seedType
          (Println (''Starting seeder with type: '' @ seedType) s)) \<and>
   (seedType \<noteq> [] \<and> seedType \<noteq> ''all'' \<and> \<not> IsSeederRegistered (manager cli) seedType \<longrightarrow>
      fst (Run ToUpper cli seedType s) = Exit 1 \<and>
      world (snd (Run ToUpper cli seedType s)) = world s) \<and>
   (IsSeederRegistered (manager cli) ''all'' \<longrightarrow>
      fst (RunSeederByName (manager cli) ''all'' s) \<noteq> Return (Some (NotFound ''all'')))"
proof -
  have found: "fst (RunSeederByName (manager cli) ''all'' s) \<noteq> Return (Some (NotFound ''all''))"
    if "IsSeederRegistered (manager cli) ''all''"
  proof -
    from that obtain f where "seederMap (manager cli) ''all'' = Some f"
      by (auto simp: IsSeederRegistered_def)
    then show ?thesis
      by (simp add: RunSeederByName_def NotFound_def Errorf_w_def
          split: prod.splits outcome.splits option.splits)
  qed
  then show ?thesis
    by (simp add: Run_def Usage_world Println_def Let_def)
qed

theorem Run_all_reserved_witness:
  "fst (RegisterSeeder NewSeederManager ''all'' (seed_ok ''all'') start) = None \<and>
   GetRegisteredSeeders with_all = [''all'', ''users''] \<and>
   IsSeederRegistered (manager (NewCLI with_all)) ''all'' \<and>
   fst (Run ascii_upper (NewCLI with_all) ''all'' start) = Return None \<and>
   world (snd (Run ascii_upper (NewCLI with_all) ''all'' start)) = [''all'', ''users''] \<and>
   fst (Run ascii_upper (NewCLI with_all) [] start) = Return None \<and>
   world (snd (Run ascii_upper (NewCLI with_all) [] start)) = [] \<and>
   IsSeederRegistered (manager (NewCLI with_all)) ''users'' \<and>
   fst (Run ascii_upper (NewCLI with_all) ''users'' start) = Return None \<and>
   world (snd (Run ascii_upper (NewCLI with_all) ''users'' start)) = [''users''] \<and>
   \<not> IsSeederRegistered (manager (NewCLI with_all)) ''ALL'' \<and>
   fst (Run ascii_upper (NewCLI with_all) ''ALL'' start) = Exit 1 \<and>
   world (snd (Run ascii_upper (NewCLI with_all) ''ALL'' start)) = [] \<and>
   fst (RunSeederByName with_all ''all'' start) = Return None \<and>
   world (snd (RunSeederByName with_all ''all'' start)) = [''all'']"
  using Run_all_reserved [where seedType = "[]" and ToUpper = ascii_upper
        and cli = "NewCLI with_all" and s = start]
    Run_all_reserved [where seedType = "''users''" and ToUpper = ascii_upper
        and cli = "NewCLI with_all" and s = start]
    Run_all_reserved [where seedType = "''ALL''" and ToUpper = ascii_upper
        and cli = "NewCLI with_all" and s = start]
  by (simp add: NewCLI_def with_all_eq RegisterSeeder_def NewSeederManager_def
      IsSeederRegistered_def GetRegisteredSeeders_def RunAllSeeders_def RunSeederByName_def
      call_def seed_ok_def Println_def start_def)

text \<open>
  C10, the part that fails. That the seeder named \<open>all\<close> can never run on its own
  through \<open>Run\<close> does not follow: on the manager whose one seeder is \<open>all\<close>,
  \<open>Run\<close> with \<open>all\<close> runs that seeder and no other, with the result and the world
  of \<open>RunSeederByName\<close> on \<open>all\<close>.
\<close>

theorem Run_all_alone_counterexample:
  "IsSeederRegistered (manager (NewCLI only_all)) ''all'' \<and>
   GetRegisteredSeeders only_all = [''all''] \<and>
   fst (Run ascii_upper (NewCLI only_all) ''all'' start) = Return None \<and>
   world (snd (Run ascii_upper (NewCLI only_all) ''all'' start)) = [''all''] \<and>
   fst (RunSeederByName only_all ''all'' start) = Return None \<and>
   world (snd (RunSeederByName only_all ''all'' start)) = [''all'']"
  by (simp add: NewCLI_def only_all_eq IsSeederRegistered_def GetRegisteredSeeders_def Run_def
      RunAllSeeders_def RunSeederByName_def call_def seed_ok_def Println_def start_def)

end
